theory Spec2Isabelle
  imports Main
begin

section \<open>Python strings\<close>

text \<open>
  A Python \<open>str\<close> is modelled as a \<open>string\<close>, one \<open>char\<close> per code point (code points
  below 256).  \<open>isspace\<close> lists the code points of that range which \<open>str.strip\<close>,
  \<open>str.rstrip\<close> and \<open>str.split\<close> treat as whitespace: TAB, LF, VT, FF, CR, the four
  separators FS, GS, RS, US, the space, NEL and the no-break space.
\<close>

definition isspace :: "char \<Rightarrow> bool" where
  "isspace c =
     (let n = (of_char c :: nat)
      in (9 \<le> n \<and> n \<le> 13) \<or> (28 \<le> n \<and> n \<le> 32) \<or> n = 133 \<or> n = 160)"

definition lstrip :: "string \<Rightarrow> string" where
  "lstrip s = dropWhile isspace s"

definition rstrip :: "string \<Rightarrow> string" where
  "rstrip s = rev (dropWhile isspace (rev s))"

definition strip :: "string \<Rightarrow> string" where
  "strip s = lstrip (rstrip s)"

text \<open>
  The slice \<open>s[i:j]\<close> for literal bounds \<open>0 \<le> i \<le> j\<close>.  A Python slice never raises:
  bounds beyond the end are clamped, which is what \<open>take\<close> and \<open>drop\<close> do.
\<close>

definition slice :: "nat \<Rightarrow> nat \<Rightarrow> 'a list \<Rightarrow> 'a list" where
  "slice i j s = take (j - i) (drop i s)"

text \<open>\<open>s.split()\<close>: the maximal runs of non-whitespace characters, in order.\<close>

function split_ws :: "string \<Rightarrow> string list" where
  "split_ws s =
     (case dropWhile isspace s of
        [] \<Rightarrow> []
      | c # cs \<Rightarrow> takeWhile (\<lambda>x. \<not> isspace x) (c # cs)
                  # split_ws (dropWhile (\<lambda>x. \<not> isspace x) (c # cs)))"
  by pat_completeness auto

lemma split_ws_measure:
  assumes "dropWhile isspace s = c # cs"
  shows "length (dropWhile (\<lambda>x. \<not> isspace x) (c # cs)) < length s"
proof -
  have "\<not> isspace (hd (dropWhile isspace s))"
    using assms hd_dropWhile [of isspace s] by auto
  then have "\<not> isspace c"
    using assms by simp
  then have "dropWhile (\<lambda>x. \<not> isspace x) (c # cs) = dropWhile (\<lambda>x. \<not> isspace x) cs"
    by simp
  moreover have "length (dropWhile (\<lambda>x. \<not> isspace x) cs) \<le> length cs"
    by (rule length_dropWhile_le)
  moreover have "length (c # cs) \<le> length s"
    using length_dropWhile_le [of isspace s] assms by simp
  ultimately show ?thesis
    by simp
qed

termination split_ws
proof (relation "measure length")
  show "wf (measure length)"
    by simp
next
  fix s :: string and c cs
  assume "dropWhile isspace s = c # cs"
  then have "length (dropWhile (\<lambda>x. \<not> isspace x) (c # cs)) < length s"
    by (rule split_ws_measure)
  then show "(dropWhile (\<lambda>x. \<not> isspace x) (c # cs), s) \<in> measure length"
    by (simp only: in_measure)
qed

declare split_ws.simps [simp del]

section \<open>Python floats and the format specification \<open>6.2f\<close>\<close>

text \<open>
  A float is a signed dyadic number \<open>\<plusminus> m \<cdot> 2\<^sup>e\<close> (sign flag, significand, binary
  exponent; a negative zero is \<open>Finite True 0 e\<close>), an infinity with its sign, or a
  not-a-number.  Every IEEE double is such a value.
\<close>

datatype pyfloat = Finite bool nat int | Infinity bool | NaN

datatype error = IndexError | ValueError | KeyError

definition digit_char :: "nat \<Rightarrow> char" where
  "digit_char d = ''0123456789'' ! d"

fun decimal :: "nat \<Rightarrow> string" where
  "decimal n = (if n < 10 then [digit_char n] else decimal (n div 10) @ [digit_char (n mod 10)])"

declare decimal.simps [simp del]

text \<open>The quotient \<open>n / d\<close> rounded to the nearest integer, a tie going to the even one.\<close>

definition round_half_even :: "nat \<Rightarrow> nat \<Rightarrow> nat" where
  "round_half_even n d =
     (let q = n div d; r = n mod d
      in if 2 * r < d then q else if d < 2 * r then Suc q else if even q then q else Suc q)"

text \<open>The magnitude \<open>m \<cdot> 2\<^sup>e\<close> in hundredths, correctly rounded.\<close>

definition hundredths :: "nat \<Rightarrow> int \<Rightarrow> nat" where
  "hundredths m e =
     (if 0 \<le> e then m * 2 ^ nat e * 100 else round_half_even (m * 100) (2 ^ nat (- e)))"

text \<open>
  The presentation type \<open>f\<close> with precision 2: sign, integer digits, a point and two
  decimals; \<open>inf\<close> and \<open>nan\<close> for the non-finite values (a not-a-number prints no sign).
\<close>

fun fixed2 :: "pyfloat \<Rightarrow> string" where
  "fixed2 (Finite neg m e) =
     (let h = hundredths m e
      in (if neg then ''-'' else '''') @ decimal (h div 100) @ ''.''
         @ [digit_char (h mod 100 div 10), digit_char (h mod 10)])"
| "fixed2 (Infinity neg) = (if neg then ''-inf'' else ''inf'')"
| "fixed2 NaN = ''nan''"

text \<open>Width 6: a shorter text is padded with spaces on the left, a longer one is kept whole.\<close>

definition rjust :: "nat \<Rightarrow> string \<Rightarrow> string" where
  "rjust w s = replicate (w - length s) CHR '' '' @ s"

definition format_6_2f :: "pyfloat \<Rightarrow> string" where
  "format_6_2f bfac = rjust 6 (fixed2 bfac)"

text \<open>\<open>"{prefix}{bfac:6.2f}{suffix}".format(prefix=..., bfac=..., suffix=...)\<close>\<close>

definition format_line :: "string \<Rightarrow> pyfloat \<Rightarrow> string \<Rightarrow> string" where
  "format_line prefix bfac suffix = prefix @ format_6_2f bfac @ suffix"

section \<open>The b-factor dictionary\<close>

type_synonym seq_dict = "string \<rightharpoonup> pyfloat"

type_synonym bfac_table = "string \<rightharpoonup> seq_dict"

text \<open>
  \<open>bfac_dict[chain_id]\<close> on a \<open>collections.defaultdict(dict)\<close>: a missing key is inserted
  with a fresh empty dictionary, which is returned.  The updated dictionary is part of the
  result.
\<close>

definition dd_getitem :: "bfac_table \<Rightarrow> string \<Rightarrow> seq_dict \<times> bfac_table" where
  "dd_getitem d k =
     (case d k of Some m \<Rightarrow> (m, d) | None \<Rightarrow> (Map.empty, d(k \<mapsto> Map.empty)))"

text \<open>\<open>m[seq_id]\<close> on a plain \<open>dict\<close>: a missing key raises.\<close>

definition dict_getitem :: "seq_dict \<Rightarrow> string \<Rightarrow> error + pyfloat" where
  "dict_getitem m k = (case m k of Some v \<Rightarrow> Inr v | None \<Rightarrow> Inl KeyError)"

text \<open>\<open>line[i]\<close> on the list of tokens.\<close>

definition list_getitem :: "'a list \<Rightarrow> nat \<Rightarrow> error + 'a" where
  "list_getitem xs i = (if i < length xs then Inr (xs ! i) else Inl IndexError)"

section \<open>\<open>create_bfac_dict\<close>\<close>

text \<open>
  The body of the loop over the non-blank lines.  The built-in \<open>float\<close> is a parameter:
  \<open>None\<close> stands for its \<open>ValueError\<close>.
\<close>

definition store_line ::
  "(string \<Rightarrow> pyfloat option) \<Rightarrow> string \<Rightarrow> bfac_table \<Rightarrow> error + bfac_table" where
  "store_line float line d =
     (let toks = split_ws line in
      case list_getitem toks 0 of
        Inl e \<Rightarrow> Inl e
      | Inr chain_id \<Rightarrow>
     (case list_getitem toks 1 of
        Inl e \<Rightarrow> Inl e
      | Inr seq_id \<Rightarrow>
     (case list_getitem toks 2 of
        Inl e \<Rightarrow> Inl e
      | Inr tok \<Rightarrow>
     (case float tok of
        None \<Rightarrow> Inl ValueError
      | Some bfac \<Rightarrow>
          (let (inner, d') = dd_getitem d chain_id
           in Inr (d'(chain_id \<mapsto> inner(seq_id \<mapsto> bfac))))))))"

fun load_lines ::
  "(string \<Rightarrow> pyfloat option) \<Rightarrow> string list \<Rightarrow> bfac_table \<Rightarrow> error + bfac_table" where
  "load_lines float [] d = Inr d"
| "load_lines float (line # lines) d =
     (case store_line float line d of
        Inl e \<Rightarrow> Inl e
      | Inr d' \<Rightarrow> load_lines float lines d')"

text \<open>
  The file is the list of its lines.  Each is right-stripped, the empty results are
  filtered out, and the loop runs over the rest from an empty dictionary.
\<close>

definition create_bfac_dict ::
  "(string \<Rightarrow> pyfloat option) \<Rightarrow> string list \<Rightarrow> error + bfac_table" where
  "create_bfac_dict float bfac_file =
     load_lines float (filter (\<lambda>line. line \<noteq> []) (map rstrip bfac_file)) Map.empty"

section \<open>\<open>insert_bfac_into_pdb\<close>\<close>

text \<open>
  The objects the function can reach: its two arguments \<open>pdb\<close> and \<open>bfac_dict\<close>, and the
  list \<open>new_pdb\<close> it builds.
\<close>

record heap =
  pdb :: "string list"
  bfac_dict :: bfac_table
  new_pdb :: "string list"

text \<open>
  The two statements that compute \<open>bfac_provided\<close> and \<open>bfac\<close>.  The test
  \<open>chain_id in bfac_dict\<close> does not call \<open>__getitem__\<close>; \<open>and\<close> evaluates
  \<open>bfac_dict[chain_id]\<close> only when the chain is present, and the conditional expression
  reads \<open>bfac_dict[chain_id][seq_id]\<close> only when \<open>bfac_provided\<close> holds.
\<close>

definition lookup_bfac ::
  "string \<Rightarrow> string \<Rightarrow> pyfloat \<Rightarrow> bfac_table \<Rightarrow> (error + pyfloat) \<times> bfac_table" where
  "lookup_bfac chain_id seq_id default_value d =
     (let (bfac_provided, d1) =
            (if d chain_id \<noteq> None
             then (let (inner, d') = dd_getitem d chain_id in (inner seq_id \<noteq> None, d'))
             else (False, d))
      in if bfac_provided
         then (let (inner, d2) = dd_getitem d1 chain_id in (dict_getitem inner seq_id, d2))
         else (Inr default_value, d1))"

text \<open>The body of the loop, for one line.\<close>

definition loop_body :: "pyfloat \<Rightarrow> string \<Rightarrow> heap \<Rightarrow> error + heap" where
  "loop_body default_value line h =
     (if slice 0 6 line = ''ATOM  '' then
        (let chain_id = strip (slice 20 22 line);
             seq_id = strip (slice 23 26 line)
         in case lookup_bfac chain_id seq_id default_value (bfac_dict h) of
              (Inl e, d') \<Rightarrow> Inl e
            | (Inr bfac, d') \<Rightarrow>
                Inr (h\<lparr>bfac_dict := d',
                       new_pdb := new_pdb h @ [format_line (take 60 line) bfac (drop 66 line)]\<rparr>))
      else if slice 0 6 line = ''HETATM'' then
        Inr (h\<lparr>new_pdb := new_pdb h @ [format_line (take 60 line) default_value (drop 66 line)]\<rparr>)
      else Inr (h\<lparr>new_pdb := new_pdb h @ [line]\<rparr>))"

lemma loop_body_pdb: "loop_body default_value line h = Inr h' \<Longrightarrow> pdb h' = pdb h"
  by (auto simp: loop_body_def Let_def split: if_splits prod.splits sum.splits)

text \<open>
  \<open>for line in pdb\<close>: the list iterator reads \<open>pdb[i]\<close> while \<open>i\<close> is below the current
  length of the list.
\<close>

function for_loop :: "pyfloat \<Rightarrow> nat \<Rightarrow> heap \<Rightarrow> error + heap" where
  "for_loop default_value i h =
     (if i < length (pdb h) then
        (case loop_body default_value (pdb h ! i) h of
           Inl e \<Rightarrow> Inl e
         | Inr h' \<Rightarrow> for_loop default_value (Suc i) h')
      else Inr h)"
  by pat_completeness auto

termination for_loop
  by (relation "measure (\<lambda>(default_value, i, h). length (pdb h) - i)")
     (auto dest: loop_body_pdb)

declare for_loop.simps [simp del]

text \<open>
  A run of the function from the heap of its call: the arguments and an empty \<open>new_pdb\<close>.
  The final heap tells what happened to the arguments.
\<close>

definition insert_bfac_into_pdb_run ::
  "string list \<Rightarrow> bfac_table \<Rightarrow> pyfloat \<Rightarrow> error + heap" where
  "insert_bfac_into_pdb_run pdb0 d default_value =
     for_loop default_value 0 \<lparr>pdb = pdb0, bfac_dict = d, new_pdb = []\<rparr>"

text \<open>\<open>return new_pdb\<close>: what the caller receives.\<close>

definition insert_bfac_into_pdb ::
  "string list \<Rightarrow> bfac_table \<Rightarrow> pyfloat \<Rightarrow> error + string list" where
  "insert_bfac_into_pdb pdb0 d default_value =
     (case insert_bfac_into_pdb_run pdb0 d default_value of
        Inl e \<Rightarrow> Inl e
      | Inr h \<Rightarrow> Inr (new_pdb h))"

section \<open>The vocabulary of the specification\<close>

text \<open>
  The specification describes the rewriter per line.  \<open>spec_value\<close> is the value it
  names for a modified line: the table's entry for the line's chain and sequence
  identifiers on an \<open>ATOM\<close> line when both keys are present, the default otherwise.
  \<open>spec_line\<close> is the line it describes.  Columns are counted as the code slices them:
  from 0, the upper bound excluded.
\<close>

definition modified :: "string \<Rightarrow> bool" where
  "modified line = (take 6 line = ''ATOM  '' \<or> take 6 line = ''HETATM'')"

definition spec_value :: "bfac_table \<Rightarrow> pyfloat \<Rightarrow> string \<Rightarrow> pyfloat" where
  "spec_value d default_value line =
     (if take 6 line = ''ATOM  '' then
        (case d (strip (slice 20 22 line)) of
           None \<Rightarrow> default_value
         | Some m \<Rightarrow>
             (case m (strip (slice 23 26 line)) of
                None \<Rightarrow> default_value
              | Some bfac \<Rightarrow> bfac))
      else default_value)"

definition spec_line :: "bfac_table \<Rightarrow> pyfloat \<Rightarrow> string \<Rightarrow> string" where
  "spec_line d default_value line =
     (if modified line
      then take 60 line @ format_6_2f (spec_value d default_value line) @ drop 66 line
      else line)"

text \<open>
  A blank line consists of whitespace only; these are the lines whose \<open>rstrip\<close> is
  empty, which the filter removes.  A malformed line has fewer than three tokens, or a
  third token that \<open>float\<close> rejects.
\<close>

definition blank :: "string \<Rightarrow> bool" where
  "blank line = (\<forall>c \<in> set line. isspace c)"

definition malformed :: "(string \<Rightarrow> pyfloat option) \<Rightarrow> string \<Rightarrow> bool" where
  "malformed float line = (length (split_ws line) < 3 \<or> float (split_ws line ! 2) = None)"

text \<open>
  \<open>fits6\<close>: the value, rounded to hundredths, lies between \<open>-99.99\<close> and \<open>999.99\<close>, or
  it is not finite.  Exactly then its text has six characters; it never has fewer.
\<close>

fun fits6 :: "pyfloat \<Rightarrow> bool" where
  "fits6 (Finite neg m e) = (hundredths m e < (if neg then 10000 else 100000))"
| "fits6 (Infinity neg) = True"
| "fits6 NaN = True"

section \<open>Concrete records\<close>

text \<open>
  Records of a structure file, as \<open>readlines\<close> yields them: two \<open>ATOM\<close> records of
  residues \<open>A 5\<close> and \<open>B 7\<close>, a \<open>HETATM\<close> record of \<open>A 5\<close>, a \<open>REMARK\<close>, an \<open>ATOM\<close>
  record of \<open>A 5\<close> with both identifiers at the left of their slices, and an \<open>ATOM\<close>
  record that ends after the coordinates.
\<close>

definition atom_A5 :: string where
  "atom_A5 = ''ATOM      1  N   ALA A   5      11.104  12.345  13.678  1.00  0.00           N\<newline>''"

definition atom_B7 :: string where
  "atom_B7 = ''ATOM      9  N   GLY B   7      14.201  10.020   9.356  1.00  0.00           N\<newline>''"

definition hetatm_A5 :: string where
  "hetatm_A5 = ''HETATM   12  O   HOH A   5      20.000  21.000  22.000  1.00  0.00           O\<newline>''"

definition remark :: string where
  "remark = ''REMARK   1 b-factor demo\<newline>''"

definition atom_A5_left :: string where
  "atom_A5_left = ''ATOM     20  CA  SERA  5        15.000  16.000  17.000  1.00  0.00           C\<newline>''"

definition short_atom_A5 :: string where
  "short_atom_A5 = ''ATOM      1  N   ALA A   5      11.104  12.345  13.678\<newline>''"

text \<open>
  The floats \<open>42.1\<close> (the double nearest to it), \<open>0.0\<close>, \<open>1.5\<close> and \<open>1000.0\<close>, and the table of
  an annotation file whose only record is \<open>A 5 <value>\<close>.
\<close>

definition f_42_1 :: pyfloat where
  "f_42_1 = Finite False 5925048259759309 (- 47)"

definition f_0 :: pyfloat where
  "f_0 = Finite False 0 0"

definition f_1_5 :: pyfloat where
  "f_1_5 = Finite False 3 (- 1)"

definition f_1000 :: pyfloat where
  "f_1000 = Finite False 125 3"

definition table_A5 :: "pyfloat \<Rightarrow> bfac_table" where
  "table_A5 bfac = [''A'' \<mapsto> [''5'' \<mapsto> bfac]]"

text \<open>
  \<open>float_sample\<close> stands for the built-in \<open>float\<close> on the tokens of the examples below:
  it parses \<open>1.5\<close>, \<open>42.10\<close> and \<open>1000\<close>, and it rejects \<open>n/a\<close>.
\<close>

definition float_sample :: "string \<Rightarrow> pyfloat option" where
  "float_sample =
     [''1.5'' \<mapsto> Finite False 3 (- 1), ''42.10'' \<mapsto> f_42_1, ''1000'' \<mapsto> f_1000]"

section \<open>The loop computes the specified lines\<close>

lemma slice_0 [simp]: "slice 0 n s = take n s"
  by (simp add: slice_def)

lemma dd_getitem_present: "d k = Some m \<Longrightarrow> dd_getitem d k = (m, d)"
  by (simp add: dd_getitem_def)

text \<open>An absent key does change a \<open>defaultdict\<close> that is indexed with it.\<close>

lemma dd_getitem_absent: "d k = None \<Longrightarrow> snd (dd_getitem d k) k = Some Map.empty"
  by (simp add: dd_getitem_def)

lemma lookup_bfac_eq:
  "lookup_bfac chain_id seq_id default_value d =
     (Inr (case d chain_id of
             None \<Rightarrow> default_value
           | Some m \<Rightarrow> (case m seq_id of None \<Rightarrow> default_value | Some bfac \<Rightarrow> bfac)),
      d)"
proof (cases "d chain_id")
  case None
  then show ?thesis
    by (simp add: lookup_bfac_def)
next
  case (Some m)
  then show ?thesis
    by (cases "m seq_id") (simp_all add: lookup_bfac_def dd_getitem_present dict_getitem_def)
qed

lemma loop_body_eq:
  "loop_body default_value line h =
     Inr (h\<lparr>new_pdb := new_pdb h @ [spec_line (bfac_dict h) default_value line]\<rparr>)"
  by (simp add: loop_body_def lookup_bfac_eq spec_line_def spec_value_def modified_def
      format_line_def)

lemma for_loop_eq:
  "for_loop default_value i h =
     Inr (h\<lparr>new_pdb := new_pdb h @ map (spec_line (bfac_dict h) default_value) (drop i (pdb h))\<rparr>)"
proof (induction default_value i h rule: for_loop.induct)
  case (1 default_value i h)
  show ?case
  proof (cases "i < length (pdb h)")
    case True
    let ?h' = "h\<lparr>new_pdb := new_pdb h @ [spec_line (bfac_dict h) default_value (pdb h ! i)]\<rparr>"
    have body: "loop_body default_value (pdb h ! i) h = Inr ?h'"
      by (rule loop_body_eq)
    have "for_loop default_value i h = for_loop default_value (Suc i) ?h'"
      using True by (subst for_loop.simps) (simp add: body)
    also have "\<dots> = Inr (?h'\<lparr>new_pdb := new_pdb ?h'
        @ map (spec_line (bfac_dict ?h') default_value) (drop (Suc i) (pdb ?h'))\<rparr>)"
      using True body by (rule "1.IH")
    also have "\<dots> = Inr (h\<lparr>new_pdb := new_pdb h
        @ map (spec_line (bfac_dict h) default_value) (drop i (pdb h))\<rparr>)"
      using True by (simp add: Cons_nth_drop_Suc [symmetric])
    finally show ?thesis .
  next
    case False
    then show ?thesis
      by (subst for_loop.simps) simp
  qed
qed

lemma insert_bfac_into_pdb_run_eq:
  "insert_bfac_into_pdb_run pdb0 d default_value =
     Inr \<lparr>pdb = pdb0, bfac_dict = d, new_pdb = map (spec_line d default_value) pdb0\<rparr>"
  by (simp add: insert_bfac_into_pdb_run_def for_loop_eq)

lemma insert_bfac_into_pdb_eq:
  "insert_bfac_into_pdb pdb0 d default_value = Inr (map (spec_line d default_value) pdb0)"
  by (simp add: insert_bfac_into_pdb_def insert_bfac_into_pdb_run_eq)

section \<open>The width of the formatted value\<close>

lemma length_decimal_pos: "0 < length (decimal n)"
  by (subst decimal.simps) simp

lemma length_decimal_le: "0 < k \<Longrightarrow> length (decimal n) \<le> k \<longleftrightarrow> n < 10 ^ k"
proof (induction n arbitrary: k rule: decimal.induct)
  case (1 n)
  show ?case
  proof (cases "n < 10")
    case True
    have "(10::nat) ^ 1 \<le> 10 ^ k"
      using "1.prems" by (intro power_increasing) simp_all
    then have "n < 10 ^ k"
      using True by simp
    moreover have "length (decimal n) = 1"
      using True by (subst decimal.simps) simp
    ultimately show ?thesis
      using "1.prems" by simp
  next
    case False
    then have len: "length (decimal n) = Suc (length (decimal (n div 10)))"
      by (subst decimal.simps) simp
    show ?thesis
    proof (cases k)
      case 0
      then show ?thesis
        using "1.prems" by simp
    next
      case (Suc j)
      show ?thesis
      proof (cases "j = 0")
        case True
        then show ?thesis
          using False Suc len length_decimal_pos [of "n div 10"] by simp
      next
        case nz: False
        then have "length (decimal (n div 10)) \<le> j \<longleftrightarrow> n div 10 < 10 ^ j"
          using "1.IH" [OF False, of j] by simp
        moreover have "n div 10 < 10 ^ j \<longleftrightarrow> n < 10 ^ Suc j"
          by (simp add: less_mult_imp_div_less div_less_iff_less_mult mult.commute)
        ultimately show ?thesis
          using Suc len by simp
      qed
    qed
  qed
qed

lemma length_rjust: "length (rjust w s) = max w (length s)"
  by (simp add: rjust_def)

lemma length_fixed2_Finite:
  "length (fixed2 (Finite neg m e)) =
     (if neg then 1 else 0) + length (decimal (hundredths m e div 100)) + 3"
  by (simp add: Let_def)

lemma length_format_6_2f_ge: "6 \<le> length (format_6_2f bfac)"
  by (simp add: format_6_2f_def length_rjust)

lemma length_format_6_2f_iff: "length (format_6_2f bfac) = 6 \<longleftrightarrow> fits6 bfac"
proof (cases bfac)
  case (Finite neg m e)
  let ?h = "hundredths m e"
  have two: "length (decimal (?h div 100)) \<le> 2 \<longleftrightarrow> ?h < 10000"
    using length_decimal_le [of 2 "?h div 100"] by (simp add: div_less_iff_less_mult)
  have three: "length (decimal (?h div 100)) \<le> 3 \<longleftrightarrow> ?h < 100000"
    using length_decimal_le [of 3 "?h div 100"] by (simp add: div_less_iff_less_mult)
  have "length (format_6_2f bfac) = 6 \<longleftrightarrow> length (fixed2 bfac) \<le> 6"
    by (auto simp: format_6_2f_def length_rjust)
  also have "\<dots> \<longleftrightarrow> fits6 bfac"
    using two three by (simp add: Finite length_fixed2_Finite del: fixed2.simps)
  finally show ?thesis .
next
  case (Infinity neg)
  then show ?thesis
    by (simp add: format_6_2f_def length_rjust)
next
  case NaN
  then show ?thesis
    by (simp add: format_6_2f_def length_rjust)
qed

section \<open>Frame and idempotence of a rewritten line\<close>

lemma spec_line_frame:
  assumes "modified line" and "66 \<le> length line"
    and "length (format_6_2f (spec_value d default_value line)) = 6"
  shows "length (spec_line d default_value line) = length line"
    and "j < 60 \<Longrightarrow> spec_line d default_value line ! j = line ! j"
    and "66 \<le> j \<Longrightarrow> j < length line \<Longrightarrow> spec_line d default_value line ! j = line ! j"
proof -
  let ?F = "format_6_2f (spec_value d default_value line)"
  have eq: "spec_line d default_value line = take 60 line @ ?F @ drop 66 line"
    using assms(1) by (simp add: spec_line_def)
  have len60: "length (take 60 line) = 60"
    using assms(2) by simp
  show "length (spec_line d default_value line) = length line"
    using assms(2,3) by (simp add: eq)
  show "spec_line d default_value line ! j = line ! j" if "j < 60"
    using that len60 by (simp add: eq nth_append)
  show "spec_line d default_value line ! j = line ! j" if "66 \<le> j" and "j < length line"
  proof -
    have "(take 60 line @ ?F @ drop 66 line) ! j = (?F @ drop 66 line) ! (j - 60)"
      using that len60 by (simp add: nth_append)
    also have "\<dots> = drop 66 line ! (j - 60 - 6)"
    proof -
      have "\<not> j - 60 < length ?F"
        using that assms(3) by simp
      then show ?thesis
        using assms(3) by (simp only: nth_append if_False)
    qed
    also have "\<dots> = line ! j"
      using that by simp
    finally show ?thesis
      by (simp add: eq)
  qed
qed

lemma take_prefix_60:
  assumes "60 \<le> length line" and "n \<le> 60"
  shows "take n (take 60 line @ rest) = take n line"
  using assms by simp

lemma slice_prefix_60:
  assumes "60 \<le> length line" and "j \<le> 60"
  shows "slice i j (take 60 line @ rest) = slice i j line"
proof -
  have "slice i j (take 60 line @ rest) = take (j - i) (drop i (take 60 line) @ drop (i - 60) rest)"
    using assms by (simp add: slice_def)
  also have "\<dots> = take (j - i) (drop i (take 60 line))"
    using assms by simp
  also have "\<dots> = take (j - i) (take (60 - i) (drop i line))"
    by (simp add: drop_take)
  also have "\<dots> = slice i j line"
    using assms by (simp add: slice_def min_def)
  finally show ?thesis .
qed

lemma spec_value_cong:
  assumes "take 6 a = take 6 b" and "slice 20 22 a = slice 20 22 b"
    and "slice 23 26 a = slice 23 26 b"
  shows "spec_value d default_value a = spec_value d default_value b"
  unfolding spec_value_def assms by (rule refl)

lemma spec_line_idem:
  assumes "modified line \<longrightarrow> 60 \<le> length line \<and> length (format_6_2f (spec_value d default_value line)) = 6"
  shows "spec_line d default_value (spec_line d default_value line) = spec_line d default_value line"
proof (cases "modified line")
  case False
  then show ?thesis
    by (simp add: spec_line_def)
next
  case True
  let ?F = "format_6_2f (spec_value d default_value line)"
  let ?out = "take 60 line @ ?F @ drop 66 line"
  have len: "60 \<le> length line" and six: "length ?F = 6"
    using assms True by simp_all
  have out: "spec_line d default_value line = ?out"
    using True by (simp add: spec_line_def)
  have t6: "take 6 ?out = take 6 line"
    using len by (rule take_prefix_60) simp
  have t60: "take 60 ?out = take 60 line"
    using len by (rule take_prefix_60) simp
  have chain: "slice 20 22 ?out = slice 20 22 line"
    using len by (rule slice_prefix_60) simp
  have seq: "slice 23 26 ?out = slice 23 26 line"
    using len by (rule slice_prefix_60) simp
  have d66: "drop 66 ?out = drop 66 line"
    using len six by simp
  have val: "spec_value d default_value ?out = spec_value d default_value line"
    using t6 chain seq by (rule spec_value_cong)
  have "modified ?out"
    using True by (simp only: modified_def t6)
  then have "spec_line d default_value ?out = take 60 ?out @ format_6_2f (spec_value d default_value ?out) @ drop 66 ?out"
    by (simp only: spec_line_def if_True)
  also have "\<dots> = ?out"
    by (simp only: t60 val d66)
  finally show ?thesis
    by (simp only: out)
qed

section \<open>Evaluating the model on concrete records\<close>

lemma replicate_numeral_unfold: "replicate (numeral k) x = x # replicate (pred_numeral k) x"
  by (simp add: numeral_eq_Suc)

lemmas string_eval = slice_def strip_def lstrip_def rstrip_def isspace_def

lemmas format_eval = format_6_2f_def rjust_def hundredths_def round_half_even_def Let_def
  decimal.simps digit_char_def replicate_numeral_unfold

lemmas example_defs = atom_A5_def atom_B7_def hetatm_A5_def remark_def short_atom_A5_def
  atom_A5_left_def f_42_1_def f_0_def f_1_5_def f_1000_def table_A5_def

lemmas loader_eval = create_bfac_dict_def store_line_def list_getitem_def dd_getitem_def
  split_ws.simps rstrip_def isspace_def float_sample_def blank_def

section \<open>Properties of \<open>insert_bfac_into_pdb\<close>\<close>

text \<open>
  C1.  As stated (the value is written as a 6-character number) the property fails: the
  value 1000.0 is written with seven characters.  What holds: on a line whose first six
  characters are \<open>ATOM\<close> and two spaces, the chain identifier is the slice \<open>[20:22]\<close> and
  the sequence identifier the slice \<open>[23:26]\<close>, both stripped of surrounding whitespace;
  the output line is the first 60 characters of the input, then the table's value for
  these two keys when both are present and the default otherwise, formatted with \<open>6.2f\<close>,
  then the input from index 66 on.  The formatted value has two decimals and at least six
  characters, and exactly six when the value, rounded to hundredths, lies between
  \<open>-99.99\<close> and \<open>999.99\<close> or is not finite.  The call succeeds.
\<close>

theorem atom_line_rewritten:
  assumes "i < length pdb0" and "take 6 (pdb0 ! i) = ''ATOM  ''"
  shows "\<exists>out bfac. insert_bfac_into_pdb pdb0 d default_value = Inr out \<and> i < length out \<and>
     bfac =
       (case d (strip (slice 20 22 (pdb0 ! i))) of
          None \<Rightarrow> default_value
        | Some m \<Rightarrow>
            (case m (strip (slice 23 26 (pdb0 ! i))) of
               None \<Rightarrow> default_value
             | Some b \<Rightarrow> b)) \<and>
     out ! i = take 60 (pdb0 ! i) @ format_6_2f bfac @ drop 66 (pdb0 ! i) \<and>
     6 \<le> length (format_6_2f bfac) \<and>
     (length (format_6_2f bfac) = 6 \<longleftrightarrow> fits6 bfac)"
  using assms
  by (simp add: insert_bfac_into_pdb_eq spec_line_def spec_value_def modified_def
      length_format_6_2f_ge length_format_6_2f_iff)

text \<open>
  The scenario of the specification: residue \<open>A 5\<close> is annotated with 42.10 and residue
  \<open>B 7\<close> is not; the default is 0.00.  The third record has blanks behind both
  identifiers.
\<close>

theorem atom_line_rewritten_witness:
  "\<exists>out.
     insert_bfac_into_pdb [atom_A5, atom_B7, atom_A5_left] (table_A5 f_42_1) f_0 = Inr out
     \<and> out ! 0 = ''ATOM      1  N   ALA A   5      11.104  12.345  13.678  1.00 42.10           N\<newline>''
     \<and> out ! 1 = ''ATOM      9  N   GLY B   7      14.201  10.020   9.356  1.00  0.00           N\<newline>''
     \<and> out ! 2 = ''ATOM     20  CA  SERA  5        15.000  16.000  17.000  1.00 42.10           C\<newline>''
     \<and> fits6 f_42_1 \<and> length (format_6_2f f_42_1) = 6"
  using atom_line_rewritten [of 0 "[atom_A5, atom_B7, atom_A5_left]" "table_A5 f_42_1" f_0]
    atom_line_rewritten [of 1 "[atom_A5, atom_B7, atom_A5_left]" "table_A5 f_42_1" f_0]
    atom_line_rewritten [of 2 "[atom_A5, atom_B7, atom_A5_left]" "table_A5 f_42_1" f_0]
  by (auto simp: example_defs string_eval format_eval)

text \<open>
  Residue \<open>A 5\<close> annotated with 1000.0: the value is written as \<open>1000.00\<close>, seven
  characters, and the rest of the record moves one column to the right.
\<close>

theorem atom_line_rewritten_counterexample:
  "table_A5 f_1000 ''A'' = Some [''5'' \<mapsto> f_1000]
   \<and> strip (slice 20 22 atom_A5) = ''A'' \<and> strip (slice 23 26 atom_A5) = ''5''
   \<and> insert_bfac_into_pdb [atom_A5] (table_A5 f_1000) f_0
     = Inr [''ATOM      1  N   ALA A   5      11.104  12.345  13.678  1.001000.00           N\<newline>'']
   \<and> format_6_2f f_1000 = ''1000.00''
   \<and> length (format_6_2f f_1000) \<noteq> 6"
  by (simp add: insert_bfac_into_pdb_eq spec_line_def spec_value_def modified_def
      example_defs string_eval format_eval)

text \<open>
  C2.  As stated (the default, six wide, goes into columns 60 to 66 of every \<open>HETATM\<close>
  line) the property fails: on a line of fewer than 60 characters the value starts where
  the line ends, and the default 1000.0 takes seven columns.  What holds: on a line whose
  first six characters are \<open>HETATM\<close> the output is the first 60 characters of the input,
  then the default value formatted with \<open>6.2f\<close>, then the input from index 66 on, whatever
  the table holds.  The formatted value has at least six characters, and exactly six
  when the default, rounded to hundredths, lies between \<open>-99.99\<close> and \<open>999.99\<close> or is not
  finite; when in addition the line has at least 60 characters, the value is the slice
  \<open>[60:66]\<close> of the output line.
\<close>

theorem hetatm_line_gets_default:
  assumes "i < length pdb0" and "take 6 (pdb0 ! i) = ''HETATM''"
  shows "\<exists>out. insert_bfac_into_pdb pdb0 d default_value = Inr out \<and> i < length out \<and>
     out ! i = take 60 (pdb0 ! i) @ format_6_2f default_value @ drop 66 (pdb0 ! i) \<and>
     6 \<le> length (format_6_2f default_value) \<and>
     (length (format_6_2f default_value) = 6 \<longleftrightarrow> fits6 default_value) \<and>
     (60 \<le> length (pdb0 ! i) \<and> fits6 default_value \<longrightarrow>
        slice 60 66 (out ! i) = format_6_2f default_value)"
proof -
  let ?line = "pdb0 ! i"
  let ?F = "format_6_2f default_value"
  have "slice 60 66 (take 60 ?line @ ?F @ drop 66 ?line) = ?F"
    if "60 \<le> length ?line" and "fits6 default_value"
  proof -
    have "length ?F = 6"
      using that(2) by (simp add: length_format_6_2f_iff)
    then show ?thesis
      using that(1) by (simp add: slice_def)
  qed
  then show ?thesis
    using assms
    by (simp add: insert_bfac_into_pdb_eq spec_line_def spec_value_def modified_def
        length_format_6_2f_ge length_format_6_2f_iff)
qed

text \<open>
  The table holds 1.5 for \<open>A 5\<close> and the default is 42.10: the \<open>HETATM\<close> record of
  \<open>A 5\<close>, which reads 0.00, receives 42.10.
\<close>

theorem hetatm_line_gets_default_witness:
  "table_A5 f_1_5 ''A'' = Some [''5'' \<mapsto> f_1_5]
   \<and> strip (slice 20 22 hetatm_A5) = ''A'' \<and> strip (slice 23 26 hetatm_A5) = ''5''
   \<and> 60 \<le> length hetatm_A5 \<and> fits6 f_42_1
   \<and> (\<exists>out.
     insert_bfac_into_pdb [hetatm_A5] (table_A5 f_1_5) f_42_1 = Inr out
     \<and> out ! 0 = ''HETATM   12  O   HOH A   5      20.000  21.000  22.000  1.00 42.10           O\<newline>''
     \<and> slice 60 66 (out ! 0) = '' 42.10'')"
  using hetatm_line_gets_default [of 0 "[hetatm_A5]" "table_A5 f_1_5" f_42_1]
  by (auto simp: example_defs string_eval format_eval)

text \<open>
  A line that is \<open>HETATM\<close> and nothing else: the value follows at index 6, and the slice
  \<open>[60:66]\<close> of the output is empty.  The full record with the default 1000.0: the value
  has seven characters.
\<close>

theorem hetatm_line_gets_default_counterexample:
  "insert_bfac_into_pdb [''HETATM''] (table_A5 f_42_1) f_0 = Inr [''HETATM  0.00'']
   \<and> slice 60 66 ''HETATM  0.00'' = []
   \<and> format_6_2f f_0 = ''  0.00''
   \<and> insert_bfac_into_pdb [hetatm_A5] (table_A5 f_42_1) f_1000
     = Inr [''HETATM   12  O   HOH A   5      20.000  21.000  22.000  1.001000.00           O\<newline>'']
   \<and> length (format_6_2f f_1000) \<noteq> 6"
  by (simp add: insert_bfac_into_pdb_eq spec_line_def spec_value_def modified_def
      example_defs string_eval format_eval)

text \<open>
  C3.  A line whose first six characters are neither \<open>ATOM\<close> with two spaces nor
  \<open>HETATM\<close> is output as it is, for every table and every default value.
\<close>

theorem other_line_unchanged:
  assumes "i < length pdb0"
    and "take 6 (pdb0 ! i) \<noteq> ''ATOM  ''" and "take 6 (pdb0 ! i) \<noteq> ''HETATM''"
  shows "\<exists>out. insert_bfac_into_pdb pdb0 d default_value = Inr out \<and> i < length out \<and>
     out ! i = pdb0 ! i"
  using assms
  by (simp add: insert_bfac_into_pdb_eq spec_line_def modified_def)

theorem other_line_unchanged_witness:
  "\<exists>out. insert_bfac_into_pdb [atom_A5, remark] (table_A5 f_42_1) f_0 = Inr out
     \<and> out ! 1 = remark"
  using other_line_unchanged [of 1 "[atom_A5, remark]" "table_A5 f_42_1" f_0]
  by (auto simp: example_defs)

text \<open>
  C4.  As stated (every modified line keeps its length and every character outside the
  slice \<open>[60:66]\<close>) the property fails twice over: a modified line of fewer than 66
  characters grows, and a value whose text is wider than six characters shifts the rest
  of the line.  It holds for a modified line of at least 66 characters whose value
  formats to exactly six characters: the output line has the length of the input line
  and agrees with it at every index below 60 and from 66 on.
\<close>

theorem modified_line_frame:
  assumes "i < length pdb0"
    and "take 6 (pdb0 ! i) = ''ATOM  '' \<or> take 6 (pdb0 ! i) = ''HETATM''"
    and "66 \<le> length (pdb0 ! i)"
    and "length (format_6_2f (spec_value d default_value (pdb0 ! i))) = 6"
  shows "\<exists>out. insert_bfac_into_pdb pdb0 d default_value = Inr out \<and> i < length out \<and>
     length (out ! i) = length (pdb0 ! i) \<and>
     (\<forall>j<length (pdb0 ! i). j < 60 \<or> 66 \<le> j \<longrightarrow> out ! i ! j = pdb0 ! i ! j)"
proof -
  have m: "modified (pdb0 ! i)"
    using assms(2) by (simp add: modified_def)
  have "length (spec_line d default_value (pdb0 ! i)) = length (pdb0 ! i)"
    using m assms(3,4) by (rule spec_line_frame(1))
  moreover have "spec_line d default_value (pdb0 ! i) ! j = pdb0 ! i ! j"
    if "j < length (pdb0 ! i)" and "j < 60 \<or> 66 \<le> j" for j
    using that spec_line_frame(2,3) [OF m assms(3,4)] by blast
  ultimately show ?thesis
    using assms(1) by (simp add: insert_bfac_into_pdb_eq)
qed

theorem modified_line_frame_witness:
  "66 \<le> length atom_A5
   \<and> length (format_6_2f (spec_value (table_A5 f_42_1) f_0 atom_A5)) = 6
   \<and> (\<exists>out. insert_bfac_into_pdb [atom_A5] (table_A5 f_42_1) f_0 = Inr out
        \<and> length (out ! 0) = length atom_A5
        \<and> out ! 0 ! 59 = atom_A5 ! 59 \<and> out ! 0 ! 66 = atom_A5 ! 66)"
proof -
  have h: "66 \<le> length atom_A5"
    and f: "length (format_6_2f (spec_value (table_A5 f_42_1) f_0 atom_A5)) = 6"
    by (simp_all add: spec_value_def example_defs string_eval format_eval)
  have p: "take 6 ([atom_A5] ! 0) = ''ATOM  '' \<or> take 6 ([atom_A5] ! 0) = ''HETATM''"
    by (simp add: example_defs)
  have "59 < length atom_A5" and "66 < length atom_A5"
    by (simp_all add: example_defs)
  then show ?thesis
    using h f modified_line_frame [of 0 "[atom_A5]" "table_A5 f_42_1" f_0, OF _ p] by auto
qed

text \<open>
  The record that ends after the coordinates grows from 55 to 61 characters (the value
  lands behind its line break).  The full record, annotated with 1000.0, grows from 79
  to 80 characters, and index 66 no longer holds what the input has there.
\<close>

theorem modified_line_frame_counterexample:
  "insert_bfac_into_pdb [short_atom_A5] Map.empty NaN
     = Inr [''ATOM      1  N   ALA A   5      11.104  12.345  13.678\<newline>   nan'']
   \<and> length ''ATOM      1  N   ALA A   5      11.104  12.345  13.678\<newline>   nan''
       \<noteq> length short_atom_A5
   \<and> insert_bfac_into_pdb [atom_A5] (table_A5 f_1000) f_0
     = Inr [''ATOM      1  N   ALA A   5      11.104  12.345  13.678  1.001000.00           N\<newline>'']
   \<and> length ''ATOM      1  N   ALA A   5      11.104  12.345  13.678  1.001000.00           N\<newline>''
       \<noteq> length atom_A5
   \<and> ''ATOM      1  N   ALA A   5      11.104  12.345  13.678  1.001000.00           N\<newline>'' ! 66
       \<noteq> atom_A5 ! 66"
  by (simp add: insert_bfac_into_pdb_eq spec_line_def spec_value_def modified_def
      example_defs string_eval format_eval)

text \<open>
  C5.  As stated (for every sequence of lines, table and default) idempotence fails: a
  modified line of fewer than 60 characters grows at every application, and a value
  wider than six characters leaves a character behind that the next application keeps.
  It holds when every modified line has at least 60 characters and the value written
  into it formats to exactly six characters: a second application with the same table
  and default returns the output of the first.
\<close>

theorem rewrite_idempotent:
  assumes "\<forall>line \<in> set pdb0.
     take 6 line = ''ATOM  '' \<or> take 6 line = ''HETATM'' \<longrightarrow>
       60 \<le> length line \<and> length (format_6_2f (spec_value d default_value line)) = 6"
  shows "\<exists>out. insert_bfac_into_pdb pdb0 d default_value = Inr out \<and>
     insert_bfac_into_pdb out d default_value = Inr out"
proof -
  have "spec_line d default_value (spec_line d default_value line) = spec_line d default_value line"
    if "line \<in> set pdb0" for line
    using assms that by (intro spec_line_idem) (simp add: modified_def)
  then have "map (spec_line d default_value) (map (spec_line d default_value) pdb0)
      = map (spec_line d default_value) pdb0"
    by simp
  then show ?thesis
    by (simp only: insert_bfac_into_pdb_eq) simp
qed

theorem rewrite_idempotent_witness:
  "\<exists>out. insert_bfac_into_pdb [atom_A5, atom_B7, hetatm_A5, remark] (table_A5 f_42_1) f_0 = Inr out
     \<and> insert_bfac_into_pdb out (table_A5 f_42_1) f_0 = Inr out"
proof -
  have "\<forall>line \<in> set [atom_A5, atom_B7, hetatm_A5, remark].
     take 6 line = ''ATOM  '' \<or> take 6 line = ''HETATM'' \<longrightarrow>
       60 \<le> length line \<and> length (format_6_2f (spec_value (table_A5 f_42_1) f_0 line)) = 6"
    by (simp add: spec_value_def example_defs string_eval format_eval)
  then show ?thesis
    by (rule rewrite_idempotent)
qed

text \<open>
  Two applications to the short record, with an empty table and the not-a-number
  default, and two applications to the full record annotated with 1000.0: in both the
  second output differs from the first.
\<close>

theorem rewrite_idempotent_counterexample:
  "insert_bfac_into_pdb [short_atom_A5] Map.empty NaN
     = Inr [''ATOM      1  N   ALA A   5      11.104  12.345  13.678\<newline>   nan'']
   \<and> insert_bfac_into_pdb [''ATOM      1  N   ALA A   5      11.104  12.345  13.678\<newline>   nan''] Map.empty NaN
     = Inr [''ATOM      1  N   ALA A   5      11.104  12.345  13.678\<newline>   na   nan'']
   \<and> ''ATOM      1  N   ALA A   5      11.104  12.345  13.678\<newline>   na   nan''
       \<noteq> ''ATOM      1  N   ALA A   5      11.104  12.345  13.678\<newline>   nan''
   \<and> insert_bfac_into_pdb [atom_A5] (table_A5 f_1000) f_0
     = Inr [''ATOM      1  N   ALA A   5      11.104  12.345  13.678  1.001000.00           N\<newline>'']
   \<and> insert_bfac_into_pdb [''ATOM      1  N   ALA A   5      11.104  12.345  13.678  1.001000.00           N\<newline>''] (table_A5 f_1000) f_0
     = Inr [''ATOM      1  N   ALA A   5      11.104  12.345  13.678  1.001000.000           N\<newline>'']
   \<and> ''ATOM      1  N   ALA A   5      11.104  12.345  13.678  1.001000.000           N\<newline>''
       \<noteq> ''ATOM      1  N   ALA A   5      11.104  12.345  13.678  1.001000.00           N\<newline>''"
  by (simp add: insert_bfac_into_pdb_eq spec_line_def spec_value_def modified_def
      example_defs string_eval format_eval)

text \<open>
  C7.  The call succeeds with as many lines as it was given, and the output line at each
  position is what the function returns for the input line of that position alone: the
  lines are in the order of the input, one for one.
\<close>

theorem output_lines_positional:
  "\<exists>out. insert_bfac_into_pdb pdb0 d default_value = Inr out \<and> length out = length pdb0 \<and>
     (\<forall>i<length pdb0. insert_bfac_into_pdb [pdb0 ! i] d default_value = Inr [out ! i])"
  by (simp add: insert_bfac_into_pdb_eq)

theorem output_lines_positional_witness:
  "\<exists>out. insert_bfac_into_pdb [atom_A5, hetatm_A5, remark] (table_A5 f_42_1) f_0 = Inr out
     \<and> length out = 3
     \<and> insert_bfac_into_pdb [hetatm_A5] (table_A5 f_42_1) f_0 = Inr [out ! 1]"
proof -
  obtain out where run: "insert_bfac_into_pdb [atom_A5, hetatm_A5, remark] (table_A5 f_42_1) f_0 = Inr out"
    and len: "length out = length [atom_A5, hetatm_A5, remark]"
    and pos: "\<forall>i<length [atom_A5, hetatm_A5, remark].
      insert_bfac_into_pdb [[atom_A5, hetatm_A5, remark] ! i] (table_A5 f_42_1) f_0 = Inr [out ! i]"
    using output_lines_positional [of "[atom_A5, hetatm_A5, remark]" "table_A5 f_42_1" f_0]
    by blast
  have "insert_bfac_into_pdb [[atom_A5, hetatm_A5, remark] ! 1] (table_A5 f_42_1) f_0 = Inr [out ! 1]"
    using pos by (elim allE [of _ 1]) simp
  then show ?thesis
    using run len by simp
qed

text \<open>
  C9.  A run ends with the list \<open>pdb\<close> and the dictionary \<open>bfac_dict\<close> as they were passed
  in.  The look-up of a line returns the dictionary it was given, for every chain
  identifier, present or not, although indexing the \<open>defaultdict\<close> with an absent key
  would insert it (\<open>dd_getitem_absent\<close>).
\<close>

theorem no_side_effects:
  "(\<exists>h. insert_bfac_into_pdb_run pdb0 d default_value = Inr h \<and> pdb h = pdb0 \<and> bfac_dict h = d)
   \<and> snd (lookup_bfac chain_id seq_id default_value d) = d"
  by (simp add: insert_bfac_into_pdb_run_eq lookup_bfac_eq)

theorem no_side_effects_witness:
  "table_A5 f_42_1 ''B'' = None
   \<and> strip (slice 20 22 atom_B7) = ''B''
   \<and> (\<exists>h. insert_bfac_into_pdb_run [atom_B7] (table_A5 f_42_1) f_0 = Inr h
        \<and> pdb h = [atom_B7] \<and> bfac_dict h = table_A5 f_42_1)
   \<and> snd (lookup_bfac ''B'' ''7'' f_0 (table_A5 f_42_1)) = table_A5 f_42_1"
proof -
  have "table_A5 f_42_1 ''B'' = None" and "strip (slice 20 22 atom_B7) = ''B''"
    by (simp_all add: example_defs string_eval)
  then show ?thesis
    using no_side_effects [of "[atom_B7]" "table_A5 f_42_1" f_0 "''B''" "''7''"] by simp
qed

text \<open>
  C10.  As stated (the line is followed by the 6-character formatted value) the property
  fails: the value 1000.0 is appended with seven characters.  What holds: for a modified
  line of fewer than 66 characters the call succeeds, and the output line is the first
  \<open>min(length, 60)\<close> characters of the input, then the value formatted with \<open>6.2f\<close>, then
  the input from index 66 on, of which there is nothing.  The formatted value has at least
  six characters, and exactly six when the value, rounded to hundredths, lies between
  \<open>-99.99\<close> and \<open>999.99\<close> or is not finite.  The output line is longer than the input line.
\<close>

theorem short_line_total:
  assumes "i < length pdb0"
    and "take 6 (pdb0 ! i) = ''ATOM  '' \<or> take 6 (pdb0 ! i) = ''HETATM''"
    and "length (pdb0 ! i) < 66"
  shows "\<exists>out. insert_bfac_into_pdb pdb0 d default_value = Inr out \<and> i < length out \<and>
     out ! i =
       take (min (length (pdb0 ! i)) 60) (pdb0 ! i)
       @ format_6_2f (spec_value d default_value (pdb0 ! i))
       @ drop 66 (pdb0 ! i) \<and>
     drop 66 (pdb0 ! i) = [] \<and>
     6 \<le> length (format_6_2f (spec_value d default_value (pdb0 ! i))) \<and>
     (length (format_6_2f (spec_value d default_value (pdb0 ! i))) = 6 \<longleftrightarrow>
        fits6 (spec_value d default_value (pdb0 ! i))) \<and>
     length (pdb0 ! i) < length (out ! i)"
proof -
  let ?line = "pdb0 ! i"
  let ?F = "format_6_2f (spec_value d default_value ?line)"
  have m: "modified ?line"
    using assms(2) by (simp add: modified_def)
  have t: "take (min (length ?line) 60) ?line = take 60 ?line"
    by (simp add: min_def)
  have out: "spec_line d default_value ?line = take 60 ?line @ ?F @ drop 66 ?line"
    using m by (simp add: spec_line_def)
  have "length ?line < min (length ?line) 60 + 6"
    using assms(3) by simp
  also have "\<dots> \<le> length (take 60 ?line @ ?F @ drop 66 ?line)"
    using length_format_6_2f_ge [of "spec_value d default_value ?line"] by simp
  finally have "length ?line < length (spec_line d default_value ?line)"
    by (simp only: out)
  then show ?thesis
    using assms(1,3) out t
    by (simp add: insert_bfac_into_pdb_eq length_format_6_2f_ge length_format_6_2f_iff)
qed

theorem short_line_total_witness:
  "length short_atom_A5 < 66
   \<and> spec_value (table_A5 f_42_1) NaN short_atom_A5 = f_42_1 \<and> fits6 f_42_1
   \<and> (\<exists>out. insert_bfac_into_pdb [short_atom_A5] (table_A5 f_42_1) NaN = Inr out
        \<and> out ! 0 = ''ATOM      1  N   ALA A   5      11.104  12.345  13.678\<newline> 42.10'')"
proof -
  have "length ([short_atom_A5] ! 0) < 66"
    and "take 6 ([short_atom_A5] ! 0) = ''ATOM  '' \<or> take 6 ([short_atom_A5] ! 0) = ''HETATM''"
    by (simp_all add: example_defs)
  then show ?thesis
    using short_line_total [of 0 "[short_atom_A5]" "table_A5 f_42_1" NaN]
    by (auto simp: spec_value_def example_defs string_eval format_eval)
qed

text \<open>
  The record that ends after the coordinates, annotated with 1000.0: seven characters
  are appended.
\<close>

theorem short_line_total_counterexample:
  "length short_atom_A5 < 66
   \<and> insert_bfac_into_pdb [short_atom_A5] (table_A5 f_1000) NaN
     = Inr [''ATOM      1  N   ALA A   5      11.104  12.345  13.678\<newline>1000.00'']
   \<and> format_6_2f f_1000 = ''1000.00''
   \<and> length (format_6_2f f_1000) \<noteq> 6"
  by (simp add: insert_bfac_into_pdb_eq spec_line_def spec_value_def modified_def
      example_defs string_eval format_eval)

section \<open>Properties of \<open>create_bfac_dict\<close>\<close>

lemma rstrip_eq_Nil_iff: "rstrip s = [] \<longleftrightarrow> blank s"
  by (simp add: rstrip_def blank_def)

lemma takeWhile_append_stop:
  assumes "\<forall>y \<in> set ys. \<not> P y"
  shows "takeWhile P (xs @ ys) = takeWhile P xs"
proof (induction xs)
  case Nil
  show ?case
    using assms by (cases ys) simp_all
next
  case (Cons x xs)
  then show ?case
    by simp
qed

lemma dropWhile_append_stop:
  assumes "\<forall>y \<in> set ys. \<not> P y"
  shows "dropWhile P (xs @ ys) = dropWhile P xs @ ys"
proof (induction xs)
  case Nil
  show ?case
    using assms by (cases ys) simp_all
next
  case (Cons x xs)
  then show ?case
    by simp
qed

lemma split_ws_blank:
  assumes "blank s"
  shows "split_ws s = []"
proof -
  have "dropWhile isspace s = []"
    using assms by (simp add: blank_def)
  then show ?thesis
    by (subst split_ws.simps) (simp only: list.case)
qed

lemma split_ws_append_blank:
  assumes "blank ws"
  shows "split_ws (s @ ws) = split_ws s"
proof (induction s rule: split_ws.induct)
  case (1 s)
  show ?case
  proof (cases "dropWhile isspace s")
    case Nil
    then have "blank (s @ ws)"
      using assms by (auto simp: blank_def)
    moreover have "blank s"
      using Nil by (simp add: blank_def)
    ultimately show ?thesis
      by (simp add: split_ws_blank)
  next
    case (Cons c cs)
    then have "\<exists>x \<in> set s. \<not> isspace x"
      by (metis dropWhile_eq_Nil_conv list.distinct(1))
    then have front: "dropWhile isspace (s @ ws) = (c # cs) @ ws"
      using Cons by auto
    have stop: "\<forall>y \<in> set ws. \<not> \<not> isspace y"
      using assms by (simp add: blank_def)
    have tok: "takeWhile (\<lambda>x. \<not> isspace x) ((c # cs) @ ws) = takeWhile (\<lambda>x. \<not> isspace x) (c # cs)"
      using stop by (rule takeWhile_append_stop)
    have rest: "dropWhile (\<lambda>x. \<not> isspace x) ((c # cs) @ ws) = dropWhile (\<lambda>x. \<not> isspace x) (c # cs) @ ws"
      using stop by (rule dropWhile_append_stop)
    have "split_ws (s @ ws) =
        takeWhile (\<lambda>x. \<not> isspace x) ((c # cs) @ ws)
        # split_ws (dropWhile (\<lambda>x. \<not> isspace x) ((c # cs) @ ws))"
      by (subst split_ws.simps) (simp only: front append_Cons list.case)
    also have "\<dots> = takeWhile (\<lambda>x. \<not> isspace x) (c # cs)
        # split_ws (dropWhile (\<lambda>x. \<not> isspace x) (c # cs))"
      using "1.IH" [OF Cons] by (simp only: tok rest)
    also have "\<dots> = split_ws s"
      by (subst (2) split_ws.simps) (simp only: Cons list.case)
    finally show ?thesis .
  qed
qed

lemma split_ws_rstrip: "split_ws (rstrip s) = split_ws s"
proof -
  have "rev s = takeWhile isspace (rev s) @ dropWhile isspace (rev s)"
    by simp
  then have "s = rstrip s @ rev (takeWhile isspace (rev s))"
    by (metis rev_append rev_rev_ident rstrip_def)
  moreover have "blank (rev (takeWhile isspace (rev s)))"
    by (auto simp: blank_def dest: set_takeWhileD)
  ultimately show ?thesis
    using split_ws_append_blank by metis
qed

lemma store_line_eq:
  "store_line float line d =
     (if length (split_ws line) < 3 then Inl IndexError
      else case float (split_ws line ! 2) of
             None \<Rightarrow> Inl ValueError
           | Some bfac \<Rightarrow>
               Inr (d(split_ws line ! 0 \<mapsto>
                     (case d (split_ws line ! 0) of None \<Rightarrow> Map.empty | Some m \<Rightarrow> m)
                       (split_ws line ! 1 \<mapsto> bfac))))"
  by (auto simp: store_line_def list_getitem_def dd_getitem_def Let_def split: option.splits)

lemma store_line_Inl_iff: "(\<exists>e. store_line float line d = Inl e) \<longleftrightarrow> malformed float line"
  by (auto simp: store_line_eq malformed_def split: option.splits)

lemma load_lines_Inl_iff:
  "(\<exists>e. load_lines float lines d = Inl e) \<longleftrightarrow> (\<exists>line \<in> set lines. malformed float line)"
proof (induction lines arbitrary: d)
  case Nil
  show ?case
    by simp
next
  case (Cons line lines)
  show ?case
  proof (cases "store_line float line d")
    case (Inl e)
    then have "malformed float line"
      using store_line_Inl_iff by blast
    then show ?thesis
      using Inl by simp
  next
    case (Inr d')
    then have "\<not> malformed float line"
      using store_line_Inl_iff [of float line d] by simp
    then show ?thesis
      using Inr Cons.IH [of d'] by simp
  qed
qed

lemma malformed_rstrip: "malformed float (rstrip line) \<longleftrightarrow> malformed float line"
  by (simp add: malformed_def split_ws_rstrip)

lemma create_bfac_dict_Inl_iff:
  "(\<exists>e. create_bfac_dict float bfac_file = Inl e) \<longleftrightarrow>
     (\<exists>line \<in> set bfac_file. \<not> blank line \<and> malformed float line)"
  by (auto simp: create_bfac_dict_def load_lines_Inl_iff malformed_rstrip rstrip_eq_Nil_iff)


lemma create_bfac_dict_skip_blank:
  assumes "blank line"
  shows "create_bfac_dict float (xs @ line # ys) = create_bfac_dict float (xs @ ys)"
  using assms by (simp add: create_bfac_dict_def rstrip_eq_Nil_iff)

lemma load_lines_append:
  "load_lines float (as @ bs) d =
     (case load_lines float as d of Inl e \<Rightarrow> Inl e | Inr d' \<Rightarrow> load_lines float bs d')"
  by (induction as arbitrary: d) (simp_all split: sum.splits)

lemma store_line_no_empty:
  assumes "store_line float line d = Inr d'" and "\<forall>c. d c \<noteq> Some Map.empty"
  shows "\<forall>c. d' c \<noteq> Some Map.empty"
proof -
  have "m(k \<mapsto> v) \<noteq> Map.empty" for m :: seq_dict and k v
    by simp
  then show ?thesis
    using assms by (auto simp: store_line_eq split: if_splits option.splits)
qed

lemma load_lines_no_empty:
  assumes "load_lines float lines d = Inr d'" and "\<forall>c. d c \<noteq> Some Map.empty"
  shows "\<forall>c. d' c \<noteq> Some Map.empty"
  using assms
proof (induction lines arbitrary: d)
  case Nil
  then show ?case
    by simp
next
  case (Cons line lines)
  then obtain d1 where step: "store_line float line d = Inr d1"
    and rest: "load_lines float lines d1 = Inr d'"
    by (auto split: sum.splits)
  have "\<forall>c. d1 c \<noteq> Some Map.empty"
    using step Cons.prems(2) by (rule store_line_no_empty)
  with rest show ?case
    by (rule Cons.IH)
qed

lemma store_line_sets:
  assumes "store_line float line d = Inr d'"
  shows "\<exists>m bfac. float (split_ws line ! 2) = Some bfac
     \<and> d' (split_ws line ! 0) = Some m \<and> m (split_ws line ! 1) = Some bfac"
  using assms by (auto simp: store_line_eq split: if_splits option.splits)

lemma store_line_keeps:
  assumes "store_line float line d = Inr d'"
    and "d c = Some m" and "m s = Some bfac"
    and "\<not> (split_ws line ! 0 = c \<and> split_ws line ! 1 = s)"
  shows "\<exists>m'. d' c = Some m' \<and> m' s = Some bfac"
  using assms by (auto simp: store_line_eq split: if_splits option.splits)

lemma load_lines_keeps:
  assumes "load_lines float lines d = Inr d'"
    and "d c = Some m" and "m s = Some bfac"
    and "\<forall>line \<in> set lines. \<not> (split_ws line ! 0 = c \<and> split_ws line ! 1 = s)"
  shows "\<exists>m'. d' c = Some m' \<and> m' s = Some bfac"
  using assms
proof (induction lines arbitrary: d m)
  case Nil
  then show ?case
    by simp
next
  case (Cons line lines)
  then obtain d1 where step: "store_line float line d = Inr d1"
    and rest: "load_lines float lines d1 = Inr d'"
    by (auto split: sum.splits)
  have "\<not> (split_ws line ! 0 = c \<and> split_ws line ! 1 = s)"
    using Cons.prems(4) by simp
  with step Cons.prems(2,3) obtain m1 where "d1 c = Some m1" and "m1 s = Some bfac"
    using store_line_keeps by blast
  moreover have "\<forall>line \<in> set lines. \<not> (split_ws line ! 0 = c \<and> split_ws line ! 1 = s)"
    using Cons.prems(4) by simp
  ultimately show ?case
    using rest Cons.IH by blast
qed

lemma create_bfac_dict_last_wins:
  assumes "create_bfac_dict float (xs @ line # ys) = Inr d"
    and "\<not> blank line"
    and "\<forall>later \<in> set ys. \<not> blank later \<longrightarrow>
           \<not> (split_ws later ! 0 = split_ws line ! 0 \<and> split_ws later ! 1 = split_ws line ! 1)"
  shows "\<exists>m bfac. float (split_ws line ! 2) = Some bfac
     \<and> d (split_ws line ! 0) = Some m \<and> m (split_ws line ! 1) = Some bfac"
proof -
  let ?keep = "\<lambda>ls. filter (\<lambda>l. l \<noteq> []) (map rstrip ls)"
  have split: "?keep (xs @ line # ys) = ?keep xs @ rstrip line # ?keep ys"
    using assms(2) by (simp add: rstrip_eq_Nil_iff)
  have "load_lines float (?keep xs @ rstrip line # ?keep ys) Map.empty = Inr d"
    using assms(1) by (simp only: create_bfac_dict_def split)
  then obtain d0 d1 where "load_lines float (?keep xs) Map.empty = Inr d0"
    and step: "store_line float (rstrip line) d0 = Inr d1"
    and rest: "load_lines float (?keep ys) d1 = Inr d"
    by (auto simp: load_lines_append split: sum.splits)
  obtain m bfac where val: "float (split_ws line ! 2) = Some bfac"
    and "d1 (split_ws line ! 0) = Some m" and "m (split_ws line ! 1) = Some bfac"
    using store_line_sets [OF step] by (auto simp: split_ws_rstrip)
  moreover have "\<forall>l \<in> set (?keep ys).
      \<not> (split_ws l ! 0 = split_ws line ! 0 \<and> split_ws l ! 1 = split_ws line ! 1)"
    using assms(3) by (auto simp: split_ws_rstrip rstrip_eq_Nil_iff)
  ultimately obtain m' where "d (split_ws line ! 0) = Some m'" and "m' (split_ws line ! 1) = Some bfac"
    using load_lines_keeps [OF rest] by blast
  with val show ?thesis
    by blast
qed

lemma create_bfac_dict_no_empty:
  assumes "create_bfac_dict float bfac_file = Inr d"
  shows "\<forall>c. d c \<noteq> Some Map.empty"
  using assms unfolding create_bfac_dict_def
  by (rule load_lines_no_empty) simp

lemma split_ws_nonempty: "\<forall>tok \<in> set (split_ws s). tok \<noteq> []"
proof (induction s rule: split_ws.induct)
  case (1 s)
  show ?case
  proof (cases "dropWhile isspace s")
    case Nil
    then have "split_ws s = []"
      by (subst split_ws.simps) (simp only: list.case)
    then show ?thesis
      by simp
  next
    case (Cons c cs)
    then have "\<not> isspace c"
      using hd_dropWhile [of isspace s] by auto
    then have tok: "takeWhile (\<lambda>x. \<not> isspace x) (c # cs) \<noteq> []"
      by simp
    have "split_ws s = takeWhile (\<lambda>x. \<not> isspace x) (c # cs)
        # split_ws (dropWhile (\<lambda>x. \<not> isspace x) (c # cs))"
      by (subst split_ws.simps) (simp only: Cons list.case)
    then show ?thesis
      using tok "1.IH" [OF Cons] by (simp del: takeWhile.simps dropWhile.simps)
  qed
qed

lemma store_line_no_empty_key:
  assumes "store_line float line d = Inr d'" and "d [] = None"
  shows "d' [] = None"
proof -
  have "split_ws line ! 0 \<noteq> []" if "\<not> length (split_ws line) < 3"
  proof -
    have "0 < length (split_ws line)"
      using that by linarith
    then have "split_ws line ! 0 \<in> set (split_ws line)"
      by (rule nth_mem)
    then show ?thesis
      using split_ws_nonempty [of line] by blast
  qed
  then show ?thesis
    using assms by (auto simp: store_line_eq split: if_splits option.splits)
qed

lemma load_lines_no_empty_key:
  assumes "load_lines float lines d = Inr d'" and "d [] = None"
  shows "d' [] = None"
  using assms
proof (induction lines arbitrary: d)
  case Nil
  then show ?case
    by simp
next
  case (Cons line lines)
  then obtain d1 where step: "store_line float line d = Inr d1"
    and rest: "load_lines float lines d1 = Inr d'"
    by (auto split: sum.splits)
  have "d1 [] = None"
    using step Cons.prems(2) by (rule store_line_no_empty_key)
  with rest show ?case
    by (rule Cons.IH)
qed

lemma create_bfac_dict_no_empty_key:
  assumes "create_bfac_dict float bfac_file = Inr d"
  shows "d [] = None"
  using assms unfolding create_bfac_dict_def
  by (rule load_lines_no_empty_key) simp

text \<open>
  C6.  The load fails exactly when some line that is not blank has fewer than three
  whitespace-separated tokens or a third token that \<open>float\<close> rejects.  In that case the
  result is the error alone: no table is returned.
\<close>

theorem create_bfac_dict_fails_iff:
  "((\<exists>e. create_bfac_dict float bfac_file = Inl e) \<longleftrightarrow>
      (\<exists>line \<in> set bfac_file. \<not> blank line \<and>
         (length (split_ws line) < 3 \<or> float (split_ws line ! 2) = None)))
   \<and> ((\<exists>line \<in> set bfac_file. \<not> blank line \<and>
         (length (split_ws line) < 3 \<or> float (split_ws line ! 2) = None)) \<longrightarrow>
      \<not> (\<exists>d. create_bfac_dict float bfac_file = Inr d))"
proof -
  have iff: "(\<exists>e. create_bfac_dict float bfac_file = Inl e) \<longleftrightarrow>
      (\<exists>line \<in> set bfac_file. \<not> blank line \<and>
         (length (split_ws line) < 3 \<or> float (split_ws line ! 2) = None))"
    using create_bfac_dict_Inl_iff [of float bfac_file] by (simp only: malformed_def)
  then show ?thesis
    by auto
qed

text \<open>
  A record with two tokens and a record with a non-numeric value make the load fail,
  each behind a good record and a blank line; the good record and the blank line alone
  load.
\<close>

theorem create_bfac_dict_fails_iff_witness:
  "(\<exists>e. create_bfac_dict float_sample [''A 5 42.10\<newline>'', ''\<newline>'', ''B 7\<newline>''] = Inl e)
   \<and> (\<exists>e. create_bfac_dict float_sample [''A 5 42.10\<newline>'', ''\<newline>'', ''B 7 n/a\<newline>''] = Inl e)
   \<and> \<not> (\<exists>e. create_bfac_dict float_sample [''A 5 42.10\<newline>'', ''\<newline>''] = Inl e)"
  using
    create_bfac_dict_fails_iff [of float_sample "[''A 5 42.10\<newline>'', ''\<newline>'', ''B 7\<newline>'']"]
    create_bfac_dict_fails_iff [of float_sample "[''A 5 42.10\<newline>'', ''\<newline>'', ''B 7 n/a\<newline>'']"]
    create_bfac_dict_fails_iff [of float_sample "[''A 5 42.10\<newline>'', ''\<newline>'']"]
  by (simp add: blank_def isspace_def split_ws.simps float_sample_def)

text \<open>
  C8.  A blank line changes nothing: the load of a file with the line equals the load of
  the file without it, error or table.  A table that is returned has no chain mapped to
  an empty dictionary, and no entry under the empty key.  Of the lines with the same chain
  and sequence identifiers, the last one decides: when no later line that is not blank has
  the two identifiers of \<open>line\<close>, the table holds the value of \<open>line\<close> for them.
\<close>

theorem blank_lines_and_duplicates:
  "(blank blank_line \<longrightarrow>
      create_bfac_dict float (xs @ blank_line # ys) = create_bfac_dict float (xs @ ys))
   \<and> (create_bfac_dict float bfac_file = Inr d \<longrightarrow>
        (\<forall>chain_id. d chain_id \<noteq> Some Map.empty) \<and> d [] = None)
   \<and> (create_bfac_dict float (xs @ line # ys) = Inr d'
        \<and> \<not> blank line
        \<and> (\<forall>later \<in> set ys. \<not> blank later \<longrightarrow>
              \<not> (split_ws later ! 0 = split_ws line ! 0 \<and> split_ws later ! 1 = split_ws line ! 1)) \<longrightarrow>
        (\<exists>m bfac. float (split_ws line ! 2) = Some bfac
           \<and> d' (split_ws line ! 0) = Some m \<and> m (split_ws line ! 1) = Some bfac))"
  using create_bfac_dict_skip_blank [of blank_line float xs ys]
    create_bfac_dict_no_empty [of float bfac_file d]
    create_bfac_dict_no_empty_key [of float bfac_file d]
    create_bfac_dict_last_wins [of float xs line ys d']
  by blast

text \<open>
  Two records for \<open>A 5\<close> with a blank line between them: the table is the one of the
  second record alone, and the file without the blank line loads to the same table.
\<close>

theorem blank_lines_and_duplicates_witness:
  "create_bfac_dict float_sample [''A 5 1.5\<newline>'', ''   \<newline>'', ''A 5 42.10\<newline>'']
     = Inr (table_A5 f_42_1)
   \<and> create_bfac_dict float_sample [''A 5 1.5\<newline>'', ''A 5 42.10\<newline>'']
     = Inr (table_A5 f_42_1)
   \<and> (\<exists>m. table_A5 f_42_1 ''A'' = Some m \<and> m \<noteq> Map.empty \<and> m ''5'' = Some f_42_1)"
proof -
  have b: "blank ''   \<newline>''"
    by (simp add: blank_def isspace_def)
  have e: "create_bfac_dict float_sample [''A 5 1.5\<newline>'', ''A 5 42.10\<newline>'']
      = Inr (table_A5 f_42_1)"
    by (simp add: loader_eval table_A5_def)
  have "create_bfac_dict float_sample ([''A 5 1.5\<newline>''] @ ''   \<newline>'' # [''A 5 42.10\<newline>''])
      = create_bfac_dict float_sample ([''A 5 1.5\<newline>''] @ [''A 5 42.10\<newline>''])"
    using b blank_lines_and_duplicates [where blank_line = "''   \<newline>''" and float = float_sample
        and xs = "[''A 5 1.5\<newline>'']" and ys = "[''A 5 42.10\<newline>'']"]
    by blast
  then have "create_bfac_dict float_sample [''A 5 1.5\<newline>'', ''   \<newline>'', ''A 5 42.10\<newline>'']
      = Inr (table_A5 f_42_1)"
    using e by simp
  moreover have "\<exists>m. table_A5 f_42_1 ''A'' = Some m \<and> m \<noteq> Map.empty \<and> m ''5'' = Some f_42_1"
    by (simp add: table_A5_def)
  ultimately show ?thesis
    using e by blast
qed

end
